theory Spec2Isabelle
  imports Main
begin

section \<open>JavaScript values used by the provisioning service\<close>

text \<open>
  The service is JavaScript. A string is modelled as a list of 8-bit characters (code units
  in the range 0..255); a property that may be \<^verbatim>\<open>undefined\<close> is an \<open>option\<close>. The only
  falsy values that occur are \<^verbatim>\<open>undefined\<close>/\<^verbatim>\<open>null\<close> and the empty string.
\<close>

definition truthy :: "string option \<Rightarrow> bool" where
  "truthy v = (case v of None \<Rightarrow> False | Some s \<Rightarrow> s \<noteq> [])"

text \<open>\<^verbatim>\<open>a || b\<close> on possibly undefined strings.\<close>

definition js_or :: "string option \<Rightarrow> string option \<Rightarrow> string option" where
  "js_or a b = (if truthy a then a else b)"

text \<open>\<^verbatim>\<open>a || 'literal'\<close>: the result is always a string.\<close>

definition js_or_default :: "string option \<Rightarrow> string \<Rightarrow> string" where
  "js_or_default a d = (case a of None \<Rightarrow> d | Some s \<Rightarrow> if s = [] then d else s)"

text \<open>An element of the request's id array: a string, or a value of any other type.\<close>

datatype jsvalue = JString string | JNotString

text \<open>\<^verbatim>\<open>Number.prototype.toString\<close> on a non-negative integer: its decimal digits.\<close>

fun toString :: "nat \<Rightarrow> string" where
  "toString n =
     (if n < 10 then [''0123456789'' ! n]
      else toString (n div 10) @ [''0123456789'' ! (n mod 10)])"

declare toString.simps [simp del]

text \<open>\<^verbatim>\<open>Array.prototype.join\<close>.\<close>

fun join :: "string \<Rightarrow> string list \<Rightarrow> string" where
  "join sep [] = []"
| "join sep [x] = x"
| "join sep (x # y # ys) = x @ sep @ join sep (y # ys)"

section \<open>Record-id sanitization (sanitizeSalesforceId)\<close>

text \<open>
  \<^verbatim>\<open>
  function sanitizeSalesforceId (id) {
    if (typeof id !== 'string') { return null; }
    const trimmed = id.trim();
    return /^[a-zA-Z0-9]{15,18}$/.test(trimmed) ? trimmed : null;
  }
  \<close>
  \<open>isWhiteSpace\<close> lists the white space and line terminator code units below 256 that
  \<^verbatim>\<open>String.prototype.trim\<close> strips: TAB, LF, VT, FF, CR, SP and NBSP.
\<close>

definition isWhiteSpace :: "char \<Rightarrow> bool" where
  "isWhiteSpace c = (of_char c \<in> {9, 10, 11, 12, 13, 32, 160 :: nat})"

definition trim :: "string \<Rightarrow> string" where
  "trim s = rev (dropWhile isWhiteSpace (rev (dropWhile isWhiteSpace s)))"

text \<open>The character class \<^verbatim>\<open>[a-zA-Z0-9]\<close>.\<close>

definition isAlnum :: "char \<Rightarrow> bool" where
  "isAlnum c =
     (let n = of_char c :: nat
      in (97 \<le> n \<and> n \<le> 122) \<or> (65 \<le> n \<and> n \<le> 90) \<or> (48 \<le> n \<and> n \<le> 57))"

text \<open>The anchored regular expression \<^verbatim>\<open>/^[a-zA-Z0-9]{15,18}$/\<close>.\<close>

definition id_regex_test :: "string \<Rightarrow> bool" where
  "id_regex_test s = (15 \<le> length s \<and> length s \<le> 18 \<and> list_all isAlnum s)"

definition sanitizeSalesforceId :: "jsvalue \<Rightarrow> string option" where
  "sanitizeSalesforceId v =
     (case v of
        JNotString \<Rightarrow> None
      | JString s \<Rightarrow> (let trimmed = trim s in if id_regex_test trimmed then Some trimmed else None))"

text \<open>
  The format as the specification words it: exactly 15 or 18 alphanumeric characters.
\<close>

definition spec_id_format :: "string \<Rightarrow> bool" where
  "spec_id_format s = ((length s = 15 \<or> length s = 18) \<and> list_all isAlnum s)"

section \<open>Query construction\<close>

text \<open>
  \<^verbatim>\<open>
  const opportunityIdList = opportunityIds.map(id => sanitizeSalesforceId(id))
        .filter(Boolean).map(id => `'${id}'`).join(',');
  \<close>
  \<open>sanitizedIds\<close> is the array after \<^verbatim>\<open>.filter(Boolean)\<close>, which drops \<^verbatim>\<open>null\<close> and
  the empty string.
\<close>

definition sanitizedIds :: "jsvalue list \<Rightarrow> string list" where
  "sanitizedIds opportunityIds =
     concat (map (\<lambda>v. case v of None \<Rightarrow> [] | Some s \<Rightarrow> if s = [] then [] else [s])
                 (map sanitizeSalesforceId opportunityIds))"

definition quoted :: "string \<Rightarrow> string" where
  "quoted s = [CHR 0x27] @ s @ [CHR 0x27]"

definition opportunityIdList :: "jsvalue list \<Rightarrow> string" where
  "opportunityIdList opportunityIds = join '','' (map quoted (sanitizedIds opportunityIds))"

definition paramQuery :: string where
  "paramQuery = ''SELECT Name__c, Value__c FROM ProvisioningParameter__mdt''"

definition oppQuery :: "jsvalue list \<Rightarrow> string" where
  "oppQuery opportunityIds =
     [CHR 0x0A] @ ''      SELECT Id, Name, AccountId, CloseDate, StageName, Amount,'' @
     [CHR 0x0A] @ ''             (SELECT Id, Product2Id, Product2.Name, Quantity, UnitPrice, PricebookEntryId FROM OpportunityLineItems)'' @
     [CHR 0x0A] @ ''      FROM Opportunity'' @
     [CHR 0x0A] @ ''      WHERE Id IN ('' @ opportunityIdList opportunityIds @ '')'' @
     [CHR 0x0A] @ ''    ''"

section \<open>Records returned by the data source\<close>

text \<open>
  The worker reads the query results by probing properties. The records below hold the
  properties that the code reads; a property that may be absent is an \<open>option\<close>.
\<close>

record name_holder =
  nh_Name :: "string option"

record product2 =
  p2_fields :: "name_holder option"
  p2_Name :: "string option"

record field_set =
  f_Id :: "string option"
  f_id :: "string option"
  f_Name__c :: "string option"
  f_Value__c :: "string option"
  f_Product2 :: "product2 option"
  f_Product2Id :: "string option"

record line_item =
  li_fields :: "field_set option"
  li_id :: "string option"

record sub_query =
  sq_records :: "line_item list option"

record sub_query_results =
  sq_OpportunityLineItems :: "sub_query option"

record sobject =
  so_fields :: "field_set option"
  so_Name__c :: "string option"
  so_Value__c :: "string option"
  so_subQueryResults :: "sub_query_results option"

record query_result =
  qr_records :: "sobject list"
  qr_done :: bool
  qr_nextRecordsUrl :: "string option"

section \<open>Errors, log entries and outbound calls\<close>

datatype error = TypeError string | JsError string

datatype logval = LStr "string option" | LErr error

datatype level = LInfo | LWarn | LError

record service_result =
  serviceId :: string
  opportunityId :: "string option"
  lineItemId :: "string option"
  productReference :: string
  status :: string
  message :: string

record job_summary =
  total :: nat
  succeeded :: nat
  failed :: nat

record callback_payload =
  cb_jobId :: string
  cb_opportunityIds :: "jsvalue list"
  cb_services :: "service_result list"
  cb_summary :: job_summary
  cb_status :: string
  cb_errors :: "string list"

text \<open>
  The options of \<^verbatim>\<open>org.request\<close>. The source passes \<^verbatim>\<open>JSON.stringify(callbackResults)\<close>
  as the body; the model keeps the object that is serialised.
\<close>

record request_options =
  ro_method :: string
  ro_headers :: "(string \<times> string) list"
  ro_body :: callback_payload

text \<open>
  What a run does to the outside world, in order: a log entry (level, bindings object,
  message) or an outbound call through \<^verbatim>\<open>org.request\<close>.
\<close>

datatype event =
    Log level "(string \<times> logval) list" string
  | Request string request_options

fun requests_of :: "event list \<Rightarrow> (string \<times> request_options) list" where
  "requests_of [] = []"
| "requests_of (Log l b m # evs) = requests_of evs"
| "requests_of (Request url opts # evs) = (url, opts) # requests_of evs"

section \<open>The authenticated context\<close>

text \<open>
  The AppLink client injected by the middleware: \<^verbatim>\<open>client.context.org.dataApi\<close> with
  \<^verbatim>\<open>query\<close> and \<^verbatim>\<open>queryMore\<close>, and \<^verbatim>\<open>client.context.org.request\<close>. A rejected
  promise is \<open>Inl\<close>.
\<close>

record dataApi =
  api_query :: "string \<Rightarrow> error + query_result"
  api_queryMore :: "query_result \<Rightarrow> error + query_result"

record org =
  org_dataApi :: "dataApi option"
  org_request :: "string \<Rightarrow> request_options \<Rightarrow> error + unit"

record sfcontext =
  ctx_org :: "org option"

record client =
  cl_context :: "sfcontext option"

section \<open>Paginated fetch (queryAll)\<close>

text \<open>
  \<^verbatim>\<open>
  let result = await dataApi.query(soql);
  allRecords = allRecords.concat(result.records);
  while (!result.done && result.nextRecordsUrl) {
    result = await dataApi.queryMore(result);
    allRecords = allRecords.concat(result.records);
  }
  \<close>
  The iteration runs for as long as the data source keeps announcing further pages, so it is a
  partial function: \<open>None\<close> is a run that never returns.
\<close>

definition has_more :: "query_result \<Rightarrow> bool" where
  "has_more result = (\<not> qr_done result \<and> truthy (qr_nextRecordsUrl result))"

partial_function (option) queryMore_loop ::
  "dataApi \<Rightarrow> query_result \<Rightarrow> sobject list \<Rightarrow> (error + sobject list) option" where
  "queryMore_loop api result allRecords =
     (if has_more result
      then (case api_queryMore api result of
              Inl e \<Rightarrow> Some (Inl e)
            | Inr result' \<Rightarrow> queryMore_loop api result' (allRecords @ qr_records result'))
      else Some (Inr allRecords))"

declare queryMore_loop.simps [code]

text \<open>\<^verbatim>\<open>sfContext.context?.org?.dataApi\<close>\<close>

definition dataApi_of :: "client \<Rightarrow> dataApi option" where
  "dataApi_of sfContext =
     (case cl_context sfContext of
        None \<Rightarrow> None
      | Some c \<Rightarrow> (case ctx_org c of None \<Rightarrow> None | Some og \<Rightarrow> org_dataApi og))"

text \<open>The body of the \<^verbatim>\<open>try\<close> block of queryAll.\<close>

definition queryAll_try :: "string \<Rightarrow> client \<Rightarrow> (error + sobject list) option" where
  "queryAll_try soql sfContext =
     (case dataApi_of sfContext of
        None \<Rightarrow> Some (Inl (JsError ''No dataApi available in sfContext''))
      | Some api \<Rightarrow>
          (case api_query api soql of
             Inl e \<Rightarrow> Some (Inl e)
           | Inr result \<Rightarrow> queryMore_loop api result ([] @ qr_records result)))"

text \<open>The \<^verbatim>\<open>catch\<close> logs the error and throws it again.\<close>

definition queryAll :: "string \<Rightarrow> client \<Rightarrow> (event list \<times> (error + sobject list)) option" where
  "queryAll soql sfContext =
     (case queryAll_try soql sfContext of
        None \<Rightarrow> None
      | Some (Inl e) \<Rightarrow>
          Some ([Log LError [(''err'', LErr e), (''soql'', LStr (Some soql))]
                   ''Error during queryAll execution''], Inl e)
      | Some (Inr allRecords) \<Rightarrow> Some ([], Inr allRecords))"

section \<open>The provisioning worker (provisionServices)\<close>

text \<open>
  The configuration mapping built by \<^verbatim>\<open>paramResult.records.reduce\<close>:
  \<^verbatim>\<open>
  const fields = record.fields || record;
  if (fields.Name__c) acc[fields.Name__c] = fields.Value__c;
  \<close>
  Assigning \<^verbatim>\<open>undefined\<close> to a key and leaving the key out read the same under
  \<^verbatim>\<open>||\<close>, so the mapping is a function to \<open>string option\<close>.
\<close>

definition param_step :: "(string \<Rightarrow> string option) \<Rightarrow> sobject \<Rightarrow> (string \<Rightarrow> string option)" where
  "param_step acc record =
     (let (name, val) = (case so_fields record of
                           Some f \<Rightarrow> (f_Name__c f, f_Value__c f)
                         | None \<Rightarrow> (so_Name__c record, so_Value__c record))
      in case name of
           None \<Rightarrow> acc
         | Some n \<Rightarrow> if n = [] then acc else acc(n := val))"

definition provisioningParameters_of :: "sobject list \<Rightarrow> (string \<Rightarrow> string option)" where
  "provisioningParameters_of records = foldl param_step (\<lambda>k. None) records"

text \<open>
  mockProvisionCall waits ten seconds and formats the current time; the formatted time is
  the argument \<open>timestamp\<close> here. Everything else is as in the source.
\<close>

definition mockProvisionCall ::
  "string \<Rightarrow> string \<Rightarrow> string option \<Rightarrow> string option \<Rightarrow> string \<Rightarrow> nat \<Rightarrow>
   (string \<Rightarrow> string option) \<Rightarrow> service_result" where
  "mockProvisionCall timestamp jobId oppId lineItem productLabel counter provisioningParameters =
     (let tier = js_or_default (provisioningParameters ''DefaultTier'') ''Standard'';
          region = js_or_default (provisioningParameters ''Region'') ''US'';
          compliance = js_or_default (provisioningParameters ''Compliance'') ''General''
      in \<lparr> serviceId = ''svc-'' @ jobId @ ''-'' @ toString counter,
           opportunityId = oppId,
           lineItemId = lineItem,
           productReference = productLabel,
           status = ''Provisioned'',
           message = ''Provisioned service for product '' @ productLabel @ '' at '' @ timestamp @
                     '' UTC ('' @ tier @ '', '' @ region @ '', Compliance: '' @ compliance @ '')'' \<rparr>)"

text \<open>
  \<^verbatim>\<open>oli.Product2?.fields?.Name || oli.Product2?.Name || oli.Product2Id || 'Service'\<close>
\<close>

definition productLabel_of :: "field_set \<Rightarrow> string" where
  "productLabel_of oli =
     (let viaFields = (case f_Product2 oli of
                         None \<Rightarrow> None
                       | Some p \<Rightarrow> (case p2_fields p of None \<Rightarrow> None | Some h \<Rightarrow> nh_Name h));
          direct = (case f_Product2 oli of None \<Rightarrow> None | Some p \<Rightarrow> p2_Name p)
      in js_or_default (js_or (js_or viaFields direct) (f_Product2Id oli)) ''Service'')"

text \<open>
  The inner iteration over \<^verbatim>\<open>lineItemsResult.records\<close>. \<open>clock k\<close> is the formatted time
  read by the \<open>k\<close>-th provisioning call of the job. Reading a property of an absent
  \<^verbatim>\<open>fields\<close> object throws a TypeError, which ends both iterations.
\<close>

fun provisionLineItems ::
  "(nat \<Rightarrow> string) \<Rightarrow> string \<Rightarrow> string option \<Rightarrow> (string \<Rightarrow> string option) \<Rightarrow> line_item list \<Rightarrow>
   nat \<Rightarrow> service_result list \<Rightarrow> event list \<times> (error + nat \<times> service_result list)" where
  "provisionLineItems clock jobId oppId params [] globalServiceCounter services =
     ([], Inr (globalServiceCounter, services))"
| "provisionLineItems clock jobId oppId params (oliSObject # rest) globalServiceCounter services =
     (case li_fields oliSObject of
        None \<Rightarrow> ([], Inl (TypeError ''Cannot read properties of undefined''))
      | Some oli \<Rightarrow>
          (let lineItem = js_or (f_Id oli) (li_id oliSObject);
               productLabel = productLabel_of oli;
               counter = globalServiceCounter + 1;
               mockResult = mockProvisionCall (clock counter) jobId oppId lineItem productLabel
                              counter params;
               entry = Log LInfo [(''jobId'', LStr (Some jobId)), (''opportunityId'', LStr oppId),
                                  (''lineItemId'', LStr lineItem), (''product'', LStr (Some productLabel)),
                                  (''serviceId'', LStr (Some (serviceId mockResult)))]
                         ''Provisioned mock service for opportunity line item.'';
               (evs, r) = provisionLineItems clock jobId oppId params rest counter
                            (services @ [mockResult])
           in (entry # evs, r)))"

text \<open>
  \<^verbatim>\<open>
  const lineItemsResult = oppSObject.subQueryResults?.OpportunityLineItems;
  if (!lineItemsResult?.records) continue;
  \<close>
\<close>

definition lineItemRecords :: "sobject \<Rightarrow> line_item list option" where
  "lineItemRecords oppSObject =
     (case so_subQueryResults oppSObject of
        None \<Rightarrow> None
      | Some sq \<Rightarrow> (case sq_OpportunityLineItems sq of None \<Rightarrow> None | Some r \<Rightarrow> sq_records r))"

text \<open>The outer iteration over the fetched opportunities.\<close>

fun provisionOpportunities ::
  "(nat \<Rightarrow> string) \<Rightarrow> string \<Rightarrow> (string \<Rightarrow> string option) \<Rightarrow> sobject list \<Rightarrow>
   nat \<Rightarrow> service_result list \<Rightarrow> event list \<times> (error + nat \<times> service_result list)" where
  "provisionOpportunities clock jobId params [] globalServiceCounter services =
     ([], Inr (globalServiceCounter, services))"
| "provisionOpportunities clock jobId params (oppSObject # rest) globalServiceCounter services =
     (case so_fields oppSObject of
        None \<Rightarrow> ([], Inl (TypeError ''Cannot read properties of undefined''))
      | Some opp \<Rightarrow>
          (let oppId = js_or (f_Id opp) (f_id opp)
           in case lineItemRecords oppSObject of
                None \<Rightarrow> provisionOpportunities clock jobId params rest globalServiceCounter services
              | Some lineItems \<Rightarrow>
                  (case provisionLineItems clock jobId oppId params lineItems
                          globalServiceCounter services of
                     (evs, Inl e) \<Rightarrow> (evs, Inl e)
                   | (evs, Inr (counter, services')) \<Rightarrow>
                       (let (evs', r) = provisionOpportunities clock jobId params rest counter services'
                        in (evs @ evs', r)))))"

definition summary_of :: "service_result list \<Rightarrow> job_summary" where
  "summary_of services =
     \<lparr> total = length services, succeeded = length services, failed = 0 \<rparr>"

definition callbackResults :: "string \<Rightarrow> jsvalue list \<Rightarrow> service_result list \<Rightarrow> callback_payload" where
  "callbackResults jobId opportunityIds services =
     \<lparr> cb_jobId = jobId, cb_opportunityIds = opportunityIds, cb_services = services,
       cb_summary = summary_of services, cb_status = ''completed'', cb_errors = [] \<rparr>"

definition requestOptions :: "string \<Rightarrow> jsvalue list \<Rightarrow> service_result list \<Rightarrow> request_options" where
  "requestOptions jobId opportunityIds services =
     \<lparr> ro_method = ''POST'', ro_headers = [(''Content-Type'', ''application/json'')],
       ro_body = callbackResults jobId opportunityIds services \<rparr>"

text \<open>
  The inner \<^verbatim>\<open>try\<close>/\<^verbatim>\<open>catch\<close> around the callback: one call of \<^verbatim>\<open>org.request\<close>, then
  a log entry for success or for the caught error.
\<close>

definition executeCallback ::
  "org \<Rightarrow> string \<Rightarrow> jsvalue list \<Rightarrow> string \<Rightarrow> service_result list \<Rightarrow> event list" where
  "executeCallback og jobId opportunityIds callbackUrl services =
     (let opts = requestOptions jobId opportunityIds services
      in case org_request og callbackUrl opts of
           Inr u \<Rightarrow>
             [Request callbackUrl opts,
              Log LInfo [] (''Provisioning callback executed successfully for Job ID: '' @ jobId @
                            ''. Services returned: '' @ toString (length services))]
         | Inl callbackError \<Rightarrow>
             [Request callbackUrl opts,
              Log LError [(''err'', LErr callbackError), (''jobId'', LStr (Some jobId))]
                (''Failed to execute provisioning callback for Job ID: '' @ jobId)])"

text \<open>From the empty-services guard to the end of the outer \<^verbatim>\<open>try\<close> block.\<close>

definition reportResults ::
  "org \<Rightarrow> string \<Rightarrow> jsvalue list \<Rightarrow> string option \<Rightarrow> service_result list \<Rightarrow> event list" where
  "reportResults og jobId opportunityIds callbackUrl services =
     (if length services = 0
      then [Log LWarn [] (''No services were generated for provisioning job '' @ jobId @ ''.'')]
      else
        Log LInfo [] (''Provisioning job '' @ jobId @ '' completed. '' @
                      toString (succeeded (summary_of services)) @ '' services provisioned.'') #
        (case callbackUrl of
           None \<Rightarrow>
             [Log LWarn [] (''No callbackUrl provided for provisioning job '' @ jobId @
                            '', skipping callback execution'')]
         | Some url \<Rightarrow>
             if url = []
             then [Log LWarn [] (''No callbackUrl provided for provisioning job '' @ jobId @
                                 '', skipping callback execution'')]
             else executeCallback og jobId opportunityIds url services))"

text \<open>
  The body of the outer \<^verbatim>\<open>try\<close> block. The result pairs the events of the run with
  \<open>Inl e\<close> when the block throws \<open>e\<close> and \<open>Inr ()\<close> when it ends normally or by
  \<^verbatim>\<open>return\<close>; \<open>None\<close> is a fetch that never returns.
\<close>

definition provisionServices_try ::
  "(nat \<Rightarrow> string) \<Rightarrow> string \<Rightarrow> jsvalue list \<Rightarrow> client option \<Rightarrow> string option \<Rightarrow>
   (event list \<times> (error + unit)) option" where
  "provisionServices_try clock jobId opportunityIds cl callbackUrl =
     (case cl of
        None \<Rightarrow> Some ([], Inl (TypeError ''Cannot destructure property of undefined''))
      | Some c \<Rightarrow>
     (case cl_context c of
        None \<Rightarrow> Some ([], Inl (TypeError ''Cannot read properties of undefined''))
      | Some ctx \<Rightarrow>
     (case ctx_org ctx of
        None \<Rightarrow> Some ([], Inl (TypeError ''Cannot read properties of undefined''))
      | Some og \<Rightarrow>
     (case org_dataApi og of
        None \<Rightarrow>
          Some ([Log LError [] (''Failed to get valid Salesforce context for provisioning job '' @ jobId)],
                Inr ())
      | Some api \<Rightarrow>
     (case api_query api paramQuery of
        Inl e \<Rightarrow> Some ([], Inl e)
      | Inr paramResult \<Rightarrow>
          (let provisioningParameters = provisioningParameters_of (qr_records paramResult)
           in case queryAll (oppQuery opportunityIds) \<lparr> cl_context = Some \<lparr> ctx_org = Some og \<rparr> \<rparr> of
                None \<Rightarrow> None
              | Some (qevs, Inl e) \<Rightarrow> Some (qevs, Inl e)
              | Some (qevs, Inr opportunities) \<Rightarrow>
                  (let entry = Log LInfo [] (''Processing '' @ toString (length opportunities) @
                                             '' Opportunities for provisioning'')
                   in case provisionOpportunities clock jobId provisioningParameters
                             opportunities 0 [] of
                        (pevs, Inl e) \<Rightarrow> Some (qevs @ entry # pevs, Inl e)
                      | (pevs, Inr (counter, services)) \<Rightarrow>
                          Some (qevs @ entry # pevs @
                                reportResults og jobId opportunityIds callbackUrl services,
                                Inr ()))))))))"

text \<open>
  provisionServices: the guard on the id array, then the \<^verbatim>\<open>try\<close> block with its
  \<^verbatim>\<open>catch\<close>, which logs the error and ends the job.
\<close>

definition provisionServices ::
  "(nat \<Rightarrow> string) \<Rightarrow> string \<Rightarrow> jsvalue list option \<Rightarrow> client option \<Rightarrow> string option \<Rightarrow>
   (event list \<times> (error + unit)) option" where
  "provisionServices clock jobId opportunityIds cl callbackUrl =
     (case opportunityIds of
        None \<Rightarrow> Some ([Log LWarn [] (''No opportunityIds provided for Job ID: '' @ jobId)], Inr ())
      | Some ids \<Rightarrow>
          if length ids = 0
          then Some ([Log LWarn [] (''No opportunityIds provided for Job ID: '' @ jobId)], Inr ())
          else
            (let entry = Log LInfo [] (''Processing provisioning job '' @ jobId @ '' for '' @
                                       toString (length ids) @ '' opportunity IDs'')
             in case provisionServices_try clock jobId ids cl callbackUrl of
                  None \<Rightarrow> None
                | Some (evs, Inl e) \<Rightarrow>
                    Some (entry # evs @
                          [Log LError [(''err'', LErr e)]
                             (''Error executing provisioning batch for Job ID: '' @ jobId)],
                          Inr ())
                | Some (evs, Inr u) \<Rightarrow> Some (entry # evs, Inr ())))"

section \<open>The submission endpoint (POST /provisionServices)\<close>





text \<open>The arguments of one scheduled call of provisionServices.\<close>

record job =
  job_jobId :: string
  job_opportunityIds :: "jsvalue list option"
  job_client :: "client option"
  job_callbackUrl :: "string option"








section \<open>Notions used to state the properties\<close>

text \<open>
  \<open>fresh_results jobId c c' new\<close>: the results \<open>new\<close> carry, in order, the service
  identifiers built from the counter values \<open>c + 1\<close> up to \<open>c'\<close>, and all have status
  Provisioned.
\<close>

definition fresh_results :: "string \<Rightarrow> nat \<Rightarrow> nat \<Rightarrow> service_result list \<Rightarrow> bool" where
  "fresh_results jobId c c' new =
     (map serviceId new = map (\<lambda>k. ''svc-'' @ jobId @ ''-'' @ toString k) [Suc c ..< Suc c'] \<and>
      list_all (\<lambda>r. status r = ''Provisioned'') new)"

text \<open>The parent id of a result is the id of one of the fetched parent records.\<close>

definition from_parent :: "sobject list \<Rightarrow> service_result \<Rightarrow> bool" where
  "from_parent opps r =
     (\<exists>p \<in> set opps. \<exists>f. so_fields p = Some f \<and> opportunityId r = js_or (f_Id f) (f_id f))"


text \<open>
  The children in processing order: parent after parent, and within a parent in the order
  of its sub-query result. \<open>lineItemId_of\<close> is the child id that the worker reads
  (\<^verbatim>\<open>oli.Id || oliSObject.id\<close>).
\<close>

definition lineItemId_of :: "line_item \<Rightarrow> string option" where
  "lineItemId_of oliSObject =
     (case li_fields oliSObject of None \<Rightarrow> None | Some oli \<Rightarrow> js_or (f_Id oli) (li_id oliSObject))"

definition children_of :: "sobject list \<Rightarrow> line_item list" where
  "children_of opps =
     concat (map (\<lambda>p. case lineItemRecords p of None \<Rightarrow> [] | Some items \<Rightarrow> items) opps)"

section \<open>A small data source for concrete runs\<close>

definition ex_lineItem :: "string \<Rightarrow> string \<Rightarrow> line_item" where
  "ex_lineItem i product =
     \<lparr> li_fields = Some \<lparr> f_Id = Some i, f_id = None, f_Name__c = None, f_Value__c = None,
                          f_Product2 = Some \<lparr> p2_fields = Some \<lparr> nh_Name = Some product \<rparr>,
                                               p2_Name = None \<rparr>,
                          f_Product2Id = None \<rparr>,
       li_id = None \<rparr>"

definition ex_parent :: "string \<Rightarrow> line_item list option \<Rightarrow> sobject" where
  "ex_parent i items =
     \<lparr> so_fields = Some \<lparr> f_Id = Some i, f_id = None, f_Name__c = None, f_Value__c = None,
                          f_Product2 = None, f_Product2Id = None \<rparr>,
       so_Name__c = None, so_Value__c = None,
       so_subQueryResults = Some \<lparr> sq_OpportunityLineItems = Some \<lparr> sq_records = items \<rparr> \<rparr> \<rparr>"

definition ex_page :: "sobject list \<Rightarrow> query_result" where
  "ex_page rs = \<lparr> qr_records = rs, qr_done = True, qr_nextRecordsUrl = None \<rparr>"

text \<open>
  A data source that answers the parameter query with \<open>params\<close> and every other query
  with one final page holding \<open>parents\<close>.
\<close>

definition ex_api :: "(error + query_result) \<Rightarrow> sobject list \<Rightarrow> dataApi" where
  "ex_api params parents =
     \<lparr> api_query = (\<lambda>soql. if soql = paramQuery then params else Inr (ex_page parents)),
       api_queryMore = (\<lambda>r. Inl (JsError ''no further page'')) \<rparr>"

text \<open>A client whose outbound calls all end with \<open>answer\<close>.\<close>

definition ex_org :: "dataApi \<Rightarrow> (error + unit) \<Rightarrow> org" where
  "ex_org api answer = \<lparr> org_dataApi = Some api, org_request = (\<lambda>url opts. answer) \<rparr>"

definition ex_client :: "dataApi \<Rightarrow> (error + unit) \<Rightarrow> client" where
  "ex_client api answer = \<lparr> cl_context = Some \<lparr> ctx_org = Some (ex_org api answer) \<rparr> \<rparr>"

text \<open>One parent with two children.\<close>

definition ex_parents :: "sobject list" where
  "ex_parents =
     [ex_parent ''001ABCDEFGHIJKL''
        (Some [ex_lineItem ''00k1'' ''Widget'', ex_lineItem ''00k2'' ''Gadget''])]"

text \<open>Parents without children: no sub-query result, and an empty one.\<close>

definition ex_childless :: "sobject list" where
  "ex_childless = [ex_parent ''001ABCDEFGHIJKL'' None, ex_parent ''001ABCDEFGHIJKM'' (Some [])]"




definition ex_ids :: "jsvalue list" where
  "ex_ids = [JString ''001ABCDEFGHIJKL'']"

definition ex_url :: string where
  "ex_url = ''https://example.test/cb''"


definition ex_clock :: "nat \<Rightarrow> string" where
  "ex_clock k = ''Nov 02, 2026, 10:00:00 AM''"

definition ex_services :: "service_result list" where
  "ex_services =
     [\<lparr> serviceId = ''svc-j1-1'', opportunityId = Some ''001ABCDEFGHIJKL'',
         lineItemId = Some ''00k1'', productReference = ''Widget'', status = ''Provisioned'',
         message = ''Provisioned service for product Widget at Nov 02, 2026, 10:00:00 AM UTC (Standard, US, Compliance: General)'' \<rparr>,
      \<lparr> serviceId = ''svc-j1-2'', opportunityId = Some ''001ABCDEFGHIJKL'',
         lineItemId = Some ''00k2'', productReference = ''Gadget'', status = ''Provisioned'',
         message = ''Provisioned service for product Gadget at Nov 02, 2026, 10:00:00 AM UTC (Standard, US, Compliance: General)'' \<rparr>]"

definition ex_opts :: request_options where
  "ex_opts =
     \<lparr> ro_method = ''POST'', ro_headers = [(''Content-Type'', ''application/json'')],
       ro_body = \<lparr> cb_jobId = ''j1'', cb_opportunityIds = ex_ids, cb_services = ex_services,
                   cb_summary = \<lparr> total = 2, succeeded = 2, failed = 0 \<rparr>,
                   cb_status = ''completed'', cb_errors = [] \<rparr> \<rparr>"

text \<open>The log entries of the two provisioning calls of that job.\<close>

definition ex_item_logs :: "event list" where
  "ex_item_logs =
     [Log LInfo [(''jobId'', LStr (Some ''j1'')), (''opportunityId'', LStr (Some ''001ABCDEFGHIJKL'')),
                 (''lineItemId'', LStr (Some ''00k1'')), (''product'', LStr (Some ''Widget'')),
                 (''serviceId'', LStr (Some ''svc-j1-1''))]
        ''Provisioned mock service for opportunity line item.'',
      Log LInfo [(''jobId'', LStr (Some ''j1'')), (''opportunityId'', LStr (Some ''001ABCDEFGHIJKL'')),
                 (''lineItemId'', LStr (Some ''00k2'')), (''product'', LStr (Some ''Gadget'')),
                 (''serviceId'', LStr (Some ''svc-j1-2''))]
        ''Provisioned mock service for opportunity line item.'']"

text \<open>The trace of the job up to the callback.\<close>

definition ex_trace :: "event list" where
  "ex_trace =
     [Log LInfo [] ''Processing provisioning job j1 for 1 opportunity IDs'',
      Log LInfo [] ''Processing 1 Opportunities for provisioning''] @
     ex_item_logs @
     [Log LInfo [] ''Provisioning job j1 completed. 2 services provisioned.'',
      Request ex_url ex_opts]"

section \<open>Auxiliary facts\<close>

subsection \<open>Decimal rendering is injective\<close>

lemma digit_inj: "a < 10 \<Longrightarrow> b < 10 \<Longrightarrow> ''0123456789'' ! a = ''0123456789'' ! b \<Longrightarrow> a = b"
proof -
  assume h: "a < 10" "b < 10" "''0123456789'' ! a = ''0123456789'' ! b"
  have d: "distinct ''0123456789''" by simp
  have l: "length ''0123456789'' = 10" by simp
  show ?thesis using h nth_eq_iff_index_eq[OF d, of a b] l by simp
qed

lemma toString_nonempty: "toString n \<noteq> []"
  by (subst toString.simps) simp

lemma toString_inj: "toString n = toString m \<Longrightarrow> n = m"
proof (induction n arbitrary: m rule: toString.induct)
  case (1 n)
  show ?case
  proof (cases "n < 10")
    case True
    show ?thesis
    proof (cases "m < 10")
      case mt: True
      from "1.prems" True mt have "''0123456789'' ! n = ''0123456789'' ! m"
        by (subst (asm) toString.simps, subst (asm) (2) toString.simps) simp
      then show ?thesis using digit_inj True mt by blast
    next
      case False
      from "1.prems" True False have "[''0123456789'' ! n] = toString (m div 10) @ [''0123456789'' ! (m mod 10)]"
        by (subst (asm) toString.simps, subst (asm) (2) toString.simps) simp
      then have "toString (m div 10) = []" by simp
      then show ?thesis using toString_nonempty by blast
    qed
  next
    case False
    show ?thesis
    proof (cases "m < 10")
      case True
      from "1.prems" True False have "toString (n div 10) @ [''0123456789'' ! (n mod 10)] = [''0123456789'' ! m]"
        by (subst (asm) toString.simps, subst (asm) (2) toString.simps) simp
      then have "toString (n div 10) = []" by simp
      then show ?thesis using toString_nonempty by blast
    next
      case mf: False
      from "1.prems" False mf have "toString (n div 10) @ [''0123456789'' ! (n mod 10)] = toString (m div 10) @ [''0123456789'' ! (m mod 10)]"
        by (subst (asm) toString.simps, subst (asm) (2) toString.simps) simp
      then have a: "toString (n div 10) = toString (m div 10)" and b: "''0123456789'' ! (n mod 10) = ''0123456789'' ! (m mod 10)"
        by simp_all
      from "1.IH"[OF False a] have d: "n div 10 = m div 10" .
      have "n mod 10 = m mod 10" using digit_inj[OF _ _ b] by simp
      with d show ?thesis by (metis div_mult_mod_eq)
    qed
  qed
qed

subsection \<open>The provisioning iterations\<close>

lemma requests_of_append: "requests_of (a @ b) = requests_of a @ requests_of b"
  by (induction a rule: requests_of.induct) simp_all

lemma fresh_results_Nil: "fresh_results jobId c c []"
  by (simp add: fresh_results_def)

lemma fresh_results_append:
  "fresh_results jobId a b xs \<Longrightarrow> fresh_results jobId b c ys \<Longrightarrow> a \<le> b \<Longrightarrow> b \<le> c \<Longrightarrow>
   fresh_results jobId a c (xs @ ys)"
proof -
  assume h: "fresh_results jobId a b xs" "fresh_results jobId b c ys" "a \<le> b" "b \<le> c"
  have "[Suc a ..< Suc c] = [Suc a ..< Suc b] @ [Suc b ..< Suc c]"
    using h(3,4) by (metis Suc_le_mono le_Suc_ex upt_add_eq_append)
  then show ?thesis using h(1,2) by (simp add: fresh_results_def)
qed

lemma mock_fresh:
  "fresh_results jobId c (Suc c) [mockProvisionCall ts jobId oppId li pl (Suc c) params]"
  by (simp add: fresh_results_def mockProvisionCall_def Let_def)

lemma mock_opportunityId:
  "opportunityId (mockProvisionCall ts jobId oppId li pl k params) = oppId"
  by (simp add: mockProvisionCall_def Let_def)

lemma provisionLineItems_inv:
  "provisionLineItems clock jobId oppId params items c svcs = (evs, r) \<Longrightarrow>
   requests_of evs = [] \<and>
   (\<forall>c' svcs'. r = Inr (c', svcs') \<longrightarrow>
      c \<le> c' \<and> (\<exists>new. svcs' = svcs @ new \<and> length new = length items \<and> fresh_results jobId c c' new \<and>
                  list_all (\<lambda>r. opportunityId r = oppId) new))"
proof (induction items arbitrary: c svcs evs r)
  case Nil
  then show ?case by (auto simp: fresh_results_Nil)
next
  case (Cons a items)
  show ?case
  proof (cases "li_fields a")
    case None
    then show ?thesis using Cons.prems by auto
  next
    case (Some oli)
    define m where "m = mockProvisionCall (clock (Suc c)) jobId oppId (js_or (f_Id oli) (li_id a)) (productLabel_of oli) (Suc c) params"
    obtain evs1 r1 where rec: "provisionLineItems clock jobId oppId params items (Suc c) (svcs @ [m]) = (evs1, r1)"
      by (cases "provisionLineItems clock jobId oppId params items (Suc c) (svcs @ [m])") auto
    from Cons.prems Some rec have evs: "\<exists>e. evs = Log LInfo (fst e) (snd e) # evs1" and r: "r = r1"
      by (auto simp: Let_def m_def)
    from Cons.IH[OF rec] have ih: "requests_of evs1 = []"
      "\<And>c' svcs'. r1 = Inr (c', svcs') \<Longrightarrow> Suc c \<le> c' \<and> (\<exists>new. svcs' = (svcs @ [m]) @ new \<and> length new = length items \<and> fresh_results jobId (Suc c) c' new \<and> list_all (\<lambda>r. opportunityId r = oppId) new)"
      by auto
    have "requests_of evs = []" using evs ih(1) by auto
    moreover have "\<forall>c' svcs'. r = Inr (c', svcs') \<longrightarrow>
      c \<le> c' \<and> (\<exists>new. svcs' = svcs @ new \<and> length new = length (a # items) \<and> fresh_results jobId c c' new \<and>
                  list_all (\<lambda>r. opportunityId r = oppId) new)"
    proof (intro allI impI)
      fix c' svcs' assume "r = Inr (c', svcs')"
      with r ih(2) obtain new where n: "Suc c \<le> c'" "svcs' = (svcs @ [m]) @ new" "length new = length items"
         "fresh_results jobId (Suc c) c' new" "list_all (\<lambda>r. opportunityId r = oppId) new" by blast
      have f: "fresh_results jobId c c' ([m] @ new)"
        using fresh_results_append[OF mock_fresh n(4)] n(1) unfolding m_def by simp
      have "list_all (\<lambda>r. opportunityId r = oppId) ([m] @ new)"
        using n(5) by (simp add: m_def mock_opportunityId)
      with f n show "c \<le> c' \<and> (\<exists>new. svcs' = svcs @ new \<and> length new = length (a # items) \<and> fresh_results jobId c c' new \<and>
                  list_all (\<lambda>r. opportunityId r = oppId) new)"
        by (intro conjI exI[of _ "[m] @ new"]) auto
    qed
    ultimately show ?thesis by blast
  qed
qed

lemma provisionOpportunities_inv:
  "provisionOpportunities clock jobId params opps c svcs = (evs, r) \<Longrightarrow>
   requests_of evs = [] \<and>
   (\<forall>c' svcs'. r = Inr (c', svcs') \<longrightarrow>
      c \<le> c' \<and> (\<exists>new. svcs' = svcs @ new \<and> fresh_results jobId c c' new \<and>
                  list_all (from_parent opps) new))"
proof (induction opps arbitrary: c svcs evs r)
  case Nil
  then show ?case by (auto simp: fresh_results_Nil)
next
  case (Cons a opps)
  have mono: "\<And>new. list_all (from_parent opps) new \<Longrightarrow> list_all (from_parent (a # opps)) new"
    by (auto simp: list_all_iff from_parent_def)
  show ?case
  proof (cases "so_fields a")
    case None
    then show ?thesis using Cons.prems by auto
  next
    case (Some opp)
    show ?thesis
    proof (cases "lineItemRecords a")
      case None
      with Some Cons.prems have "provisionOpportunities clock jobId params opps c svcs = (evs, r)"
        by (simp add: Let_def)
      from Cons.IH[OF this] show ?thesis using mono by blast
    next
      case (Some items)
      obtain evs1 r1 where li: "provisionLineItems clock jobId (js_or (f_Id opp) (f_id opp)) params items c svcs = (evs1, r1)"
        by (cases "provisionLineItems clock jobId (js_or (f_Id opp) (f_id opp)) params items c svcs") auto
      note inv1 = provisionLineItems_inv[OF li]
      show ?thesis
      proof (cases r1)
        case (Inl e)
        with li Some \<open>so_fields a = Some opp\<close> Cons.prems have "evs = evs1" "r = Inl e"
          by (auto simp: Let_def)
        then show ?thesis using inv1 by auto
      next
        case (Inr p)
        obtain c1 svcs1 where p: "p = (c1, svcs1)" by (cases p)
        obtain evs2 r2 where rec: "provisionOpportunities clock jobId params opps c1 svcs1 = (evs2, r2)"
          by (cases "provisionOpportunities clock jobId params opps c1 svcs1") auto
        from li Inr p rec Some \<open>so_fields a = Some opp\<close> Cons.prems have e: "evs = evs1 @ evs2" "r = r2"
          by (auto simp: Let_def)
        note inv2 = Cons.IH[OF rec]
        from inv1 Inr p obtain new1 where n1: "c \<le> c1" "svcs1 = svcs @ new1" "fresh_results jobId c c1 new1"
          "list_all (\<lambda>r. opportunityId r = js_or (f_Id opp) (f_id opp)) new1" by blast
        have fp1: "list_all (from_parent (a # opps)) new1"
          using n1(4) \<open>so_fields a = Some opp\<close> by (auto simp: list_all_iff from_parent_def)
        have "requests_of evs = []" using e inv1 inv2 by (simp add: requests_of_append)
        moreover have "\<forall>c' svcs'. r = Inr (c', svcs') \<longrightarrow>
            c \<le> c' \<and> (\<exists>new. svcs' = svcs @ new \<and> fresh_results jobId c c' new \<and>
                  list_all (from_parent (a # opps)) new)"
        proof (intro allI impI)
          fix c' svcs' assume "r = Inr (c', svcs')"
          with e inv2 obtain new2 where n2: "c1 \<le> c'" "svcs' = svcs1 @ new2" "fresh_results jobId c1 c' new2"
            "list_all (from_parent opps) new2" by blast
          have "fresh_results jobId c c' (new1 @ new2)"
            using fresh_results_append[OF n1(3) n2(3) n1(1) n2(1)] .
          moreover have "list_all (from_parent (a # opps)) (new1 @ new2)"
            using fp1 mono[OF n2(4)] by simp
          ultimately show "c \<le> c' \<and> (\<exists>new. svcs' = svcs @ new \<and> fresh_results jobId c c' new \<and>
                  list_all (from_parent (a # opps)) new)"
            using n1 n2 by (intro conjI exI[of _ "new1 @ new2"]) auto
        qed
        ultimately show ?thesis by blast
      qed
    qed
  qed
qed

lemma fresh_results_distinct:
  "fresh_results jobId c c' new \<Longrightarrow> distinct (map serviceId new)"
proof -
  assume "fresh_results jobId c c' new"
  then have m: "map serviceId new = map (\<lambda>k. ''svc-'' @ jobId @ ''-'' @ toString k) [Suc c ..< Suc c']"
    by (simp add: fresh_results_def)
  have "inj (\<lambda>k. ''svc-'' @ jobId @ ''-'' @ toString k)"
    by (rule injI) (use toString_inj in auto)
  then have "distinct (map (\<lambda>k. ''svc-'' @ jobId @ ''-'' @ toString k) [Suc c ..< Suc c'])"
    by (simp add: distinct_map inj_on_def)
  with m show ?thesis by simp
qed

lemma fresh_results_nth:
  "fresh_results jobId c c' new \<Longrightarrow> i < length new \<Longrightarrow>
   serviceId (new ! i) = ''svc-'' @ jobId @ ''-'' @ toString (c + i + 1) \<and> status (new ! i) = ''Provisioned''"
proof -
  assume f: "fresh_results jobId c c' new" and i: "i < length new"
  from f have m: "map serviceId new = map (\<lambda>k. ''svc-'' @ jobId @ ''-'' @ toString k) [Suc c ..< Suc c']"
    and s: "list_all (\<lambda>r. status r = ''Provisioned'') new"
    by (simp_all add: fresh_results_def)
  from m have len: "length new = c' - c" by (metis length_map length_upt diff_Suc_Suc)
  have "serviceId (new ! i) = map serviceId new ! i" using i by simp
  also have "\<dots> = ''svc-'' @ jobId @ ''-'' @ toString ([Suc c ..< Suc c'] ! i)"
    using i len by (simp add: m del: upt_Suc)
  also have "[Suc c ..< Suc c'] ! i = c + i + 1" using i len by (simp del: upt_Suc)
  finally have "serviceId (new ! i) = ''svc-'' @ jobId @ ''-'' @ toString (c + i + 1)" .
  moreover have "status (new ! i) = ''Provisioned''" using s i by (simp add: list_all_length)
  ultimately show ?thesis by simp
qed

lemma fresh_results_length: "fresh_results jobId c c' new \<Longrightarrow> c \<le> c' \<Longrightarrow> c' = c + length new"
proof -
  assume f: "fresh_results jobId c c' new" and le: "c \<le> c'"
  from f have "length (map serviceId new) = length [Suc c ..< Suc c']"
    by (simp add: fresh_results_def)
  then show ?thesis using le by simp
qed

lemma queryAll_requests: "queryAll soql sf = Some (qevs, r) \<Longrightarrow> requests_of qevs = []"
  by (auto simp: queryAll_def split: option.splits sum.splits)

lemma requests_of_executeCallback:
  "requests_of (executeCallback og jobId ids url services) = [(url, requestOptions jobId ids services)]"
  by (simp add: executeCallback_def Let_def split: sum.splits)

lemma requests_of_reportResults:
  "requests_of (reportResults og jobId ids cb services) =
     (if services \<noteq> [] \<and> truthy cb then [(the cb, requestOptions jobId ids services)] else [])"
  by (auto simp: reportResults_def truthy_def requests_of_executeCallback split: option.splits)

lemma provisionServices_try_requests:
  assumes "provisionServices_try clock jobId ids cl cb = Some (evs, r)"
  shows "requests_of evs = [] \<or>
         (\<exists>url params opps pevs counter services.
            cb = Some url \<and> url \<noteq> [] \<and> services \<noteq> [] \<and>
            provisionOpportunities clock jobId params opps 0 [] = (pevs, Inr (counter, services)) \<and>
            requests_of evs = [(url, requestOptions jobId ids services)])"
proof (cases "requests_of evs = []")
  case True
  then show ?thesis by simp
next
  case False
  from assms False obtain c ctx og api pr where
    cl: "cl = Some c" "cl_context c = Some ctx" "ctx_org ctx = Some og" "org_dataApi og = Some api"
        "api_query api paramQuery = Inr pr"
    by (auto simp: provisionServices_try_def split: option.splits sum.splits)
  define params where "params = provisioningParameters_of (qr_records pr)"
  from assms False cl obtain qevs opps where
    q: "queryAll (oppQuery ids) \<lparr> cl_context = Some \<lparr> ctx_org = Some og \<rparr> \<rparr> = Some (qevs, Inr opps)"
    by (auto simp: provisionServices_try_def Let_def queryAll_requests split: option.splits sum.splits prod.splits)
  obtain pevs pr2 where p: "provisionOpportunities clock jobId params opps 0 [] = (pevs, pr2)"
    by (cases "provisionOpportunities clock jobId params opps 0 []") auto
  note pinv = provisionOpportunities_inv[OF p]
  note qinv = queryAll_requests[OF q]
  from assms False cl q p pinv qinv obtain counter services where
    s: "pr2 = Inr (counter, services)"
    by (auto simp: provisionServices_try_def Let_def params_def requests_of_append split: sum.splits)
  from assms cl q p s have evs: "requests_of evs = requests_of (reportResults og jobId ids cb services)"
    using pinv qinv by (auto simp: provisionServices_try_def Let_def params_def requests_of_append)
  with False have t: "services \<noteq> []" "truthy cb"
    by (auto simp: requests_of_reportResults split: if_splits)
  then obtain url where u: "cb = Some url" "url \<noteq> []" by (auto simp: truthy_def split: option.splits)
  have "requests_of evs = [(url, requestOptions jobId ids services)]"
    using evs t u by (simp add: requests_of_reportResults)
  then show ?thesis using t(1) u p s by blast
qed

lemma provisionServices_requests:
  assumes "provisionServices clock jobId oids cl cb = Some (evs, r)"
  shows "r = Inr () \<and> (requests_of evs = [] \<or>
         (\<exists>ids url params opps pevs counter services.
            oids = Some ids \<and> cb = Some url \<and> url \<noteq> [] \<and> services \<noteq> [] \<and>
            provisionOpportunities clock jobId params opps 0 [] = (pevs, Inr (counter, services)) \<and>
            requests_of evs = [(url, requestOptions jobId ids services)]))"
proof (cases oids)
  case None
  then show ?thesis using assms by (auto simp: provisionServices_def)
next
  case (Some ids)
  show ?thesis
  proof (cases "ids = []")
    case True
    then show ?thesis using assms Some by (auto simp: provisionServices_def)
  next
    case False
    from assms Some False obtain tevs tr where
      t: "provisionServices_try clock jobId ids cl cb = Some (tevs, tr)"
      by (auto simp: provisionServices_def Let_def split: option.splits)
    from assms Some False t have "r = Inr ()" and "requests_of evs = requests_of tevs"
      by (auto simp: provisionServices_def Let_def requests_of_append split: sum.splits)
    then show ?thesis using provisionServices_try_requests[OF t] Some by auto
  qed
qed

subsection \<open>Concrete runs\<close>

lemmas ex_defs = ex_client_def ex_org_def ex_api_def ex_page_def ex_parents_def ex_parent_def ex_lineItem_def
  ex_ids_def ex_url_def ex_clock_def ex_services_def ex_opts_def ex_item_logs_def ex_trace_def

lemmas run_defs = provisionServices_def provisionServices_try_def queryAll_def queryAll_try_def
  dataApi_of_def queryMore_loop.simps has_more_def truthy_def provisioningParameters_of_def
  lineItemRecords_def Let_def js_or_def productLabel_of_def js_or_default_def reportResults_def
  executeCallback_def mockProvisionCall_def requestOptions_def callbackResults_def summary_of_def
  toString.simps

lemma paramQuery_neq_oppQuery: "oppQuery ids \<noteq> paramQuery"
  by (simp add: oppQuery_def paramQuery_def)

lemma ex_run_delivered:
  "provisionServices ex_clock ''j1'' (Some ex_ids) (Some (ex_client (ex_api (Inr (ex_page [])) ex_parents) (Inr ()))) (Some ex_url)
   = Some (ex_trace @ [Log LInfo [] ''Provisioning callback executed successfully for Job ID: j1. Services returned: 2''], Inr ())"
  by (simp add: run_defs ex_defs paramQuery_neq_oppQuery)

lemma ex_run_rejected:
  "provisionServices ex_clock ''j1'' (Some ex_ids) (Some (ex_client (ex_api (Inr (ex_page [])) ex_parents) (Inl (JsError ''rejected'')))) (Some ex_url)
   = Some (ex_trace @ [Log LError [(''err'', LErr (JsError ''rejected'')), (''jobId'', LStr (Some ''j1''))] ''Failed to execute provisioning callback for Job ID: j1''], Inr ())"
  by (simp add: run_defs ex_defs paramQuery_neq_oppQuery)

subsection \<open>Results follow the processing order\<close>

lemma mock_lineItemId:
  "lineItemId (mockProvisionCall ts jobId oppId li pl k params) = li"
  by (simp add: mockProvisionCall_def Let_def)

lemma provisionLineItems_order:
  "provisionLineItems clock jobId oppId params items c svcs = (evs, Inr (c', svcs')) \<Longrightarrow>
   map lineItemId svcs' = map lineItemId svcs @ map lineItemId_of items"
proof (induction items arbitrary: c svcs evs)
  case Nil
  then show ?case by simp
next
  case (Cons a items)
  then show ?case
    by (auto simp: Let_def lineItemId_of_def mock_lineItemId split: option.splits prod.splits)
qed

lemma provisionOpportunities_order:
  "provisionOpportunities clock jobId params opps c svcs = (evs, Inr (c', svcs')) \<Longrightarrow>
   map lineItemId svcs' = map lineItemId svcs @ map lineItemId_of (children_of opps)"
proof (induction opps arbitrary: c svcs evs)
  case Nil
  then show ?case by (simp add: children_of_def)
next
  case (Cons a opps)
  have ch: "children_of (a # opps) = (case lineItemRecords a of None \<Rightarrow> [] | Some items \<Rightarrow> items) @ children_of opps"
    by (simp add: children_of_def)
  from Cons.prems show ?case
    by (auto simp: Let_def ch split: option.splits prod.splits sum.splits
          dest!: provisionLineItems_order Cons.IH)
qed

subsection \<open>Pagination\<close>


subsection \<open>Further concrete runs\<close>

lemma ex_loop:
  "provisionOpportunities ex_clock ''j1'' (\<lambda>k. None) ex_parents 0 [] = (ex_item_logs, Inr (2, ex_services))"
  by (simp add: ex_defs lineItemRecords_def Let_def js_or_def truthy_def productLabel_of_def
        js_or_default_def mockProvisionCall_def toString.simps)

lemma ex_queryAll:
  "queryAll (oppQuery ids) \<lparr> cl_context = Some \<lparr> ctx_org = Some (ex_org (ex_api params parents) answer) \<rparr> \<rparr>
     = Some ([], Inr parents)"
  by (simp add: queryAll_def queryAll_try_def dataApi_of_def ex_org_def ex_api_def ex_page_def
        paramQuery_neq_oppQuery queryMore_loop.simps has_more_def)

lemma ex_childless_loop:
  "provisionOpportunities ex_clock ''j1'' (provisioningParameters_of (qr_records (ex_page []))) ex_childless 0 []
     = ([], Inr (0, []))"
  by (simp add: ex_childless_def ex_parent_def lineItemRecords_def Let_def)


subsection \<open>Sanitization\<close>

lemma alnum_not_space: "isAlnum c \<Longrightarrow> \<not> isWhiteSpace c"
  by (auto simp: isAlnum_def isWhiteSpace_def Let_def)

lemma dropWhile_none: "\<forall>c \<in> set s. \<not> P c \<Longrightarrow> dropWhile P s = s"
  by (cases s) auto

lemma trim_alnum: "list_all isAlnum s \<Longrightarrow> trim s = s"
proof -
  assume "list_all isAlnum s"
  then have n: "\<forall>c \<in> set s. \<not> isWhiteSpace c"
    by (auto simp: list_all_iff alnum_not_space)
  then have "dropWhile isWhiteSpace s = s" by (rule dropWhile_none)
  moreover from n have "dropWhile isWhiteSpace (rev s) = rev s" by (intro dropWhile_none) simp
  ultimately show ?thesis by (simp add: trim_def)
qed

lemma sanitizedIds_filter:
  "sanitizedIds (filter (\<lambda>v. sanitizeSalesforceId v \<noteq> None) ids) = sanitizedIds ids"
  by (induction ids) (auto simp: sanitizedIds_def)

lemma set_sanitizedIds:
  "t \<in> set (sanitizedIds ids) \<Longrightarrow> \<exists>s. JString s \<in> set ids \<and> t = trim s \<and> id_regex_test (trim s)"
proof (induction ids)
  case Nil
  then show ?case by (simp add: sanitizedIds_def)
next
  case (Cons v ids)
  have step: "sanitizedIds (v # ids) =
      (case sanitizeSalesforceId v of None \<Rightarrow> [] | Some s \<Rightarrow> if s = [] then [] else [s]) @ sanitizedIds ids"
    by (simp add: sanitizedIds_def)
  show ?case
  proof (cases "t \<in> set (sanitizedIds ids)")
    case True
    with Cons.IH show ?thesis by auto
  next
    case False
    with Cons.prems step have "sanitizeSalesforceId v = Some t"
      by (auto split: option.splits if_splits)
    then show ?thesis
      by (cases v) (auto simp: sanitizeSalesforceId_def Let_def split: if_splits)
  qed
qed

lemmas sanitize_eval = sanitizeSalesforceId_def trim_def isWhiteSpace_def id_regex_test_def
  isAlnum_def spec_id_format_def Let_def

text \<open>
  The quantifier \<^verbatim>\<open>{15,18}\<close> of the regular expression is a range: identifiers of 16
  and 17 alphanumeric characters pass as well.
\<close>

lemma sanitize_accepts_16_and_17:
  "sanitizeSalesforceId (JString ''001ABCDEFGHIJKLM'') = Some ''001ABCDEFGHIJKLM'' \<and>
   sanitizeSalesforceId (JString ''001ABCDEFGHIJKLMN'') = Some ''001ABCDEFGHIJKLMN''"
  by (simp add: sanitize_eval)

section \<open>Properties of the submission endpoint\<close>







section \<open>Properties of sanitization and query construction\<close>

text \<open>
  C2, as the code has it: sanitization trims surrounding white space first. An id whose
  trimmed form is 15 or 18 alphanumeric characters is accepted as that trimmed form (an id
  already in the format is returned unchanged). A value that is not a string, or whose
  trimmed form has a character outside the class or fewer than 15 or more than 18
  characters, is treated as absent: the query is the one built without it. Every id in
  the query is alphanumeric and is the trimmed form of a supplied id, and the parent id of
  every ServiceResult is the id of a fetched parent record.
\<close>

theorem sanitize_trimmed_format:
  "(spec_id_format s \<longrightarrow> sanitizeSalesforceId (JString s) = Some s) \<and>
   (spec_id_format (trim s) \<longrightarrow> sanitizeSalesforceId (JString s) = Some (trim s)) \<and>
   (\<not> list_all isAlnum (trim s) \<or> length (trim s) < 15 \<or> 18 < length (trim s) \<longrightarrow>
      sanitizeSalesforceId (JString s) = None) \<and>
   sanitizeSalesforceId JNotString = None \<and>
   oppQuery ids = oppQuery (filter (\<lambda>v. sanitizeSalesforceId v \<noteq> None) ids) \<and>
   (\<forall>t \<in> set (sanitizedIds ids).
      list_all isAlnum t \<and> (\<exists>s'. JString s' \<in> set ids \<and> t = trim s')) \<and>
   (provisionOpportunities clock jobId params opps 0 [] = (pevs, Inr (counter, services)) \<longrightarrow>
      list_all (from_parent opps) services)"
proof (intro conjI impI ballI)
  assume "spec_id_format s"
  then show "sanitizeSalesforceId (JString s) = Some s"
    by (auto simp: spec_id_format_def sanitizeSalesforceId_def id_regex_test_def trim_alnum Let_def)
next
  assume "spec_id_format (trim s)"
  then show "sanitizeSalesforceId (JString s) = Some (trim s)"
    by (auto simp: spec_id_format_def sanitizeSalesforceId_def id_regex_test_def Let_def)
next
  assume "\<not> list_all isAlnum (trim s) \<or> length (trim s) < 15 \<or> 18 < length (trim s)"
  then show "sanitizeSalesforceId (JString s) = None"
    by (auto simp: sanitizeSalesforceId_def id_regex_test_def Let_def)
next
  show "sanitizeSalesforceId JNotString = None" by (simp add: sanitizeSalesforceId_def)
next
  show "oppQuery ids = oppQuery (filter (\<lambda>v. sanitizeSalesforceId v \<noteq> None) ids)"
    unfolding oppQuery_def opportunityIdList_def sanitizedIds_filter ..
next
  fix t assume "t \<in> set (sanitizedIds ids)"
  from set_sanitizedIds[OF this] obtain s' where
    "JString s' \<in> set ids" "t = trim s'" "id_regex_test (trim s')" by blast
  then show "list_all isAlnum t" by (simp add: id_regex_test_def)
next
  fix t assume "t \<in> set (sanitizedIds ids)"
  from set_sanitizedIds[OF this] show "\<exists>s'. JString s' \<in> set ids \<and> t = trim s'" by blast
next
  assume "provisionOpportunities clock jobId params opps 0 [] = (pevs, Inr (counter, services))"
  from provisionOpportunities_inv[OF this] show "list_all (from_parent opps) services" by auto
qed

theorem sanitize_trimmed_format_witness:
  "spec_id_format ''001ABCDEFGHIJKL'' \<and>
   sanitizeSalesforceId (JString ''001ABCDEFGHIJKL'') = Some ''001ABCDEFGHIJKL'' \<and>
   spec_id_format (trim ''  001ABCDEFGHIJKLMNO '') \<and>
   sanitizeSalesforceId (JString ''  001ABCDEFGHIJKLMNO '') = Some ''001ABCDEFGHIJKLMNO'' \<and>
   \<not> list_all isAlnum (trim ''001ABCDEFGH' OR 1'') \<and>
   sanitizeSalesforceId (JString ''001ABCDEFGH' OR 1'') = None \<and>
   length (trim ''001ABC'') < 15 \<and>
   sanitizeSalesforceId (JString ''001ABC'') = None \<and>
   oppQuery [JString ''001ABCDEFGH' OR 1'', JString ''001ABCDEFGHIJKL'', JNotString] =
     oppQuery [JString ''001ABCDEFGHIJKL''] \<and>
   sanitizedIds [JString ''001ABCDEFGH' OR 1'', JString ''001ABCDEFGHIJKL'', JNotString] = [''001ABCDEFGHIJKL''] \<and>
   list_all (from_parent ex_parents) ex_services"
proof -
  have f1: "spec_id_format ''001ABCDEFGHIJKL''" by (simp add: sanitize_eval)
  have f2: "spec_id_format (trim ''  001ABCDEFGHIJKLMNO '')" by (simp add: sanitize_eval)
  have f3: "\<not> list_all isAlnum (trim ''001ABCDEFGH' OR 1'')" by (simp add: sanitize_eval)
  have f4: "length (trim ''001ABC'') < 15" by (simp add: sanitize_eval)
  have f5: "filter (\<lambda>v. sanitizeSalesforceId v \<noteq> None)
              [JString ''001ABCDEFGH' OR 1'', JString ''001ABCDEFGHIJKL'', JNotString] =
            [JString ''001ABCDEFGHIJKL'']"
    by (simp add: sanitize_eval)
  have f6: "sanitizedIds [JString ''001ABCDEFGH' OR 1'', JString ''001ABCDEFGHIJKL'', JNotString] = [''001ABCDEFGHIJKL'']"
    by (simp add: sanitize_eval sanitizedIds_def)
  have t2: "trim ''  001ABCDEFGHIJKLMNO '' = ''001ABCDEFGHIJKLMNO''" by (simp add: sanitize_eval)
  note w1 = sanitize_trimmed_format[of "''001ABCDEFGHIJKL''"
      "[JString ''001ABCDEFGH' OR 1'', JString ''001ABCDEFGHIJKL'', JNotString]"
      ex_clock "''j1''" "\<lambda>k. None" ex_parents ex_item_logs 2 ex_services]
  note w2 = sanitize_trimmed_format[of "''  001ABCDEFGHIJKLMNO ''"]
  note w3 = sanitize_trimmed_format[of "''001ABCDEFGH' OR 1''"]
  note w4 = sanitize_trimmed_format[of "''001ABC''"]
  have g1: "sanitizeSalesforceId (JString ''001ABCDEFGHIJKL'') = Some ''001ABCDEFGHIJKL''"
    using w1 f1 by blast
  have g2: "sanitizeSalesforceId (JString ''  001ABCDEFGHIJKLMNO '') = Some ''001ABCDEFGHIJKLMNO''"
    using w2 f2 t2 by simp
  have g3: "sanitizeSalesforceId (JString ''001ABCDEFGH' OR 1'') = None"
    using w3 f3 by blast
  have g4: "sanitizeSalesforceId (JString ''001ABC'') = None"
    using w4 f4 by blast
  have g5: "oppQuery [JString ''001ABCDEFGH' OR 1'', JString ''001ABCDEFGHIJKL'', JNotString] =
     oppQuery [JString ''001ABCDEFGHIJKL'']"
    using w1 f5 by simp
  have g6: "list_all (from_parent ex_parents) ex_services"
    using w1 ex_loop by blast
  show ?thesis using f1 f2 f3 f4 f6 g1 g2 g3 g4 g5 g6 by blast
qed

text \<open>
  An id padded with white space is not in the specified format, yet it is accepted and its
  trimmed form enters the query.
\<close>

theorem sanitize_counterexample:
  "\<not> spec_id_format ''  001ABCDEFGHIJKL  '' \<and>
   sanitizeSalesforceId (JString ''  001ABCDEFGHIJKL  '') = Some ''001ABCDEFGHIJKL'' \<and>
   sanitizedIds [JString ''  001ABCDEFGHIJKL  ''] = [''001ABCDEFGHIJKL'']"
  by (simp add: sanitize_eval sanitizedIds_def)

section \<open>Properties of the worker\<close>




section \<open>Properties of the paginated fetch\<close>



section \<open>Properties of the job summary, the callback and the service identifiers\<close>

text \<open>
  C6: for every generated JobSummary, \<open>total\<close> is the length of the services sequence
  and \<open>succeeded + failed = total\<close>. The first two conjuncts are about the summary
  built from any services sequence; the others about the summary inside every callback
  payload that a job sends.
\<close>

theorem summary_matches_services:
  assumes "provisionServices clock jobId oids cl cb = Some (evs, r)"
    and "(url, opts) \<in> set (requests_of evs)"
  shows "total (summary_of services) = length services \<and>
         succeeded (summary_of services) + failed (summary_of services) = total (summary_of services) \<and>
         cb_summary (ro_body opts) = summary_of (cb_services (ro_body opts)) \<and>
         total (cb_summary (ro_body opts)) = length (cb_services (ro_body opts)) \<and>
         succeeded (cb_summary (ro_body opts)) + failed (cb_summary (ro_body opts)) =
           total (cb_summary (ro_body opts))"
proof -
  from provisionServices_requests[OF assms(1)] assms(2)
  obtain ids svcs where "opts = requestOptions jobId ids svcs"
    by auto
  then show ?thesis
    by (simp add: requestOptions_def callbackResults_def summary_of_def)
qed

theorem summary_matches_services_witness:
  "provisionServices ex_clock ''j1'' (Some ex_ids)
      (Some (ex_client (ex_api (Inr (ex_page [])) ex_parents) (Inr ()))) (Some ex_url) =
     Some (ex_trace @ [Log LInfo [] ''Provisioning callback executed successfully for Job ID: j1. Services returned: 2''], Inr ()) \<and>
   (ex_url, ex_opts) \<in> set (requests_of (ex_trace @ [Log LInfo [] ''Provisioning callback executed successfully for Job ID: j1. Services returned: 2''])) \<and>
   total (cb_summary (ro_body ex_opts)) = 2 \<and> length (cb_services (ro_body ex_opts)) = 2 \<and>
   succeeded (cb_summary (ro_body ex_opts)) + failed (cb_summary (ro_body ex_opts)) = 2"
proof -
  have m: "(ex_url, ex_opts) \<in> set (requests_of (ex_trace @ [Log LInfo [] ''Provisioning callback executed successfully for Job ID: j1. Services returned: 2'']))"
    by (simp add: ex_trace_def ex_item_logs_def requests_of_append)
  from summary_matches_services[OF ex_run_delivered m, of "[]"] ex_run_delivered m
  show ?thesis by (simp add: ex_opts_def ex_services_def summary_of_def)
qed

text \<open>
  C7: when the iteration over the fetched parents ends with zero ServiceResults, the
  worker logs the warning and ends; its trace holds no callback call, whatever the
  callback address is.
\<close>

theorem no_callback_without_services:
  assumes "ids \<noteq> []"
    and "cl_context c = Some ctx" and "ctx_org ctx = Some og" and "org_dataApi og = Some api"
    and "api_query api paramQuery = Inr paramResult"
    and "queryAll (oppQuery ids) \<lparr> cl_context = Some \<lparr> ctx_org = Some og \<rparr> \<rparr> = Some (qevs, Inr opps)"
    and "provisionOpportunities clock jobId (provisioningParameters_of (qr_records paramResult))
           opps 0 [] = (pevs, Inr (counter, []))"
  shows "provisionServices clock jobId (Some ids) (Some c) callbackUrl =
           Some (Log LInfo [] (''Processing provisioning job '' @ jobId @ '' for '' @
                               toString (length ids) @ '' opportunity IDs'') #
                 qevs @
                 Log LInfo [] (''Processing '' @ toString (length opps) @
                               '' Opportunities for provisioning'') #
                 pevs @
                 [Log LWarn [] (''No services were generated for provisioning job '' @ jobId @ ''.'')],
                 Inr ()) \<and>
         requests_of (Log LInfo [] (''Processing provisioning job '' @ jobId @ '' for '' @
                               toString (length ids) @ '' opportunity IDs'') #
                 qevs @
                 Log LInfo [] (''Processing '' @ toString (length opps) @
                               '' Opportunities for provisioning'') #
                 pevs @
                 [Log LWarn [] (''No services were generated for provisioning job '' @ jobId @ ''.'')]) = []"
proof -
  have "requests_of qevs = []" using queryAll_requests[OF assms(6)] .
  moreover have "requests_of pevs = []" using provisionOpportunities_inv[OF assms(7)] by simp
  ultimately have "requests_of (Log LInfo [] (''Processing provisioning job '' @ jobId @ '' for '' @
                               toString (length ids) @ '' opportunity IDs'') #
                 qevs @
                 Log LInfo [] (''Processing '' @ toString (length opps) @
                               '' Opportunities for provisioning'') #
                 pevs @
                 [Log LWarn [] (''No services were generated for provisioning job '' @ jobId @ ''.'')]) = []"
    by (simp add: requests_of_append)
  moreover from assms have "provisionServices clock jobId (Some ids) (Some c) callbackUrl =
           Some (Log LInfo [] (''Processing provisioning job '' @ jobId @ '' for '' @
                               toString (length ids) @ '' opportunity IDs'') #
                 qevs @
                 Log LInfo [] (''Processing '' @ toString (length opps) @
                               '' Opportunities for provisioning'') #
                 pevs @
                 [Log LWarn [] (''No services were generated for provisioning job '' @ jobId @ ''.'')],
                 Inr ())"
    by (simp add: provisionServices_def provisionServices_try_def Let_def reportResults_def)
  ultimately show ?thesis by blast
qed

theorem no_callback_without_services_witness:
  "provisionServices ex_clock ''j1'' (Some ex_ids)
      (Some (ex_client (ex_api (Inr (ex_page [])) ex_childless) (Inr ()))) (Some ex_url) =
     Some ([Log LInfo [] ''Processing provisioning job j1 for 1 opportunity IDs'',
            Log LInfo [] ''Processing 2 Opportunities for provisioning'',
            Log LWarn [] ''No services were generated for provisioning job j1.''], Inr ()) \<and>
   provisionOpportunities ex_clock ''j1'' (provisioningParameters_of (qr_records (ex_page []))) ex_childless 0 []
     = ([], Inr (0, []))"
proof -
  have a1: "ex_ids \<noteq> []" by (simp add: ex_ids_def)
  have a2: "cl_context (ex_client (ex_api (Inr (ex_page [])) ex_childless) (Inr ())) =
              Some \<lparr> ctx_org = Some (ex_org (ex_api (Inr (ex_page [])) ex_childless) (Inr ())) \<rparr>"
    by (simp add: ex_client_def)
  have a3: "ctx_org \<lparr> ctx_org = Some (ex_org (ex_api (Inr (ex_page [])) ex_childless) (Inr ())) \<rparr> =
              Some (ex_org (ex_api (Inr (ex_page [])) ex_childless) (Inr ()))"
    by simp
  have a4: "org_dataApi (ex_org (ex_api (Inr (ex_page [])) ex_childless) (Inr ())) =
              Some (ex_api (Inr (ex_page [])) ex_childless)"
    by (simp add: ex_org_def)
  have a5: "api_query (ex_api (Inr (ex_page [])) ex_childless) paramQuery = Inr (ex_page [])"
    by (simp add: ex_api_def)
  from no_callback_without_services[OF a1 a2 a3 a4 a5 ex_queryAll ex_childless_loop, of "Some ex_url"]
    ex_childless_loop
  show ?thesis
    by (simp add: ex_ids_def ex_childless_def toString.simps)
qed



text \<open>
  C9: within a job one counter numbers the ServiceResults. Starting as the worker does
  (counter 0, no results), the \<open>i\<close>-th result (from 0) belongs to the \<open>i\<close>-th
  child in processing order and carries the service identifier built from the job id and
  the counter value \<open>i + 1\<close>, so the sequence numbers increase strictly along the
  processing order; the service identifiers of the job are pairwise distinct.
\<close>

theorem service_ids_sequential_unique:
  assumes "provisionOpportunities clock jobId params opps 0 [] = (pevs, Inr (counter, services))"
  shows "counter = length services \<and>
         (\<forall>i < length services.
            serviceId (services ! i) = ''svc-'' @ jobId @ ''-'' @ toString (i + 1)) \<and>
         map lineItemId services = map lineItemId_of (children_of opps) \<and>
         distinct (map serviceId services)"
proof -
  from provisionOpportunities_inv[OF assms] have f: "fresh_results jobId 0 counter services"
    by auto
  have "counter = length services" using fresh_results_length[OF f] by simp
  moreover have "\<forall>i < length services.
      serviceId (services ! i) = ''svc-'' @ jobId @ ''-'' @ toString (i + 1)"
    using fresh_results_nth[OF f] by simp
  moreover have "map lineItemId services = map lineItemId_of (children_of opps)"
    using provisionOpportunities_order[OF assms] by simp
  ultimately show ?thesis using fresh_results_distinct[OF f] by blast
qed

theorem service_ids_sequential_unique_witness:
  "provisionOpportunities ex_clock ''j1'' (\<lambda>k. None) ex_parents 0 [] = (ex_item_logs, Inr (2, ex_services)) \<and>
   length ex_services = 2 \<and>
   map serviceId ex_services = [''svc-j1-1'', ''svc-j1-2''] \<and>
   map lineItemId ex_services = [Some ''00k1'', Some ''00k2''] \<and>
   distinct (map serviceId ex_services)"
proof -
  from service_ids_sequential_unique[OF ex_loop] have "distinct (map serviceId ex_services)"
    by blast
  then show ?thesis using ex_loop by (simp add: ex_services_def)
qed

text \<open>
  C10: every produced ServiceResult has status Provisioned, and every callback payload
  that a job sends has status completed, no errors and \<open>summary.failed = 0\<close>.
\<close>

theorem only_success_statuses:
  assumes "provisionServices clock jobId oids cl cb = Some (evs, r)"
    and "(url, opts) \<in> set (requests_of evs)"
  shows "status (mockProvisionCall ts jobId oppId lineItem productLabel counter params) = ''Provisioned'' \<and>
         (\<forall>s \<in> set (cb_services (ro_body opts)). status s = ''Provisioned'') \<and>
         cb_status (ro_body opts) = ''completed'' \<and>
         cb_errors (ro_body opts) = [] \<and>
         failed (cb_summary (ro_body opts)) = 0"
proof -
  from provisionServices_requests[OF assms(1)] assms(2)
  obtain ids params' opps pevs c svcs where
    o: "opts = requestOptions jobId ids svcs" and
    p: "provisionOpportunities clock jobId params' opps 0 [] = (pevs, Inr (c, svcs))"
    by auto
  from provisionOpportunities_inv[OF p] have "fresh_results jobId 0 c svcs" by auto
  then have "\<forall>s \<in> set svcs. status s = ''Provisioned''"
    by (simp add: fresh_results_def list_all_iff)
  then show ?thesis using o
    by (simp add: requestOptions_def callbackResults_def summary_of_def mockProvisionCall_def Let_def)
qed

theorem only_success_statuses_witness:
  "provisionServices ex_clock ''j1'' (Some ex_ids)
      (Some (ex_client (ex_api (Inr (ex_page [])) ex_parents) (Inl (JsError ''rejected'')))) (Some ex_url) =
     Some (ex_trace @ [Log LError [(''err'', LErr (JsError ''rejected'')), (''jobId'', LStr (Some ''j1''))]
                         ''Failed to execute provisioning callback for Job ID: j1''], Inr ()) \<and>
   (ex_url, ex_opts) \<in> set (requests_of (ex_trace @ [Log LError [(''err'', LErr (JsError ''rejected'')), (''jobId'', LStr (Some ''j1''))]
                         ''Failed to execute provisioning callback for Job ID: j1''])) \<and>
   map status (cb_services (ro_body ex_opts)) = [''Provisioned'', ''Provisioned''] \<and>
   cb_status (ro_body ex_opts) = ''completed'' \<and> cb_errors (ro_body ex_opts) = [] \<and>
   failed (cb_summary (ro_body ex_opts)) = 0"
proof -
  have m: "(ex_url, ex_opts) \<in> set (requests_of (ex_trace @ [Log LError [(''err'', LErr (JsError ''rejected'')), (''jobId'', LStr (Some ''j1''))]
                         ''Failed to execute provisioning callback for Job ID: j1'']))"
    by (simp add: ex_trace_def ex_item_logs_def requests_of_append)
  from only_success_statuses[OF ex_run_rejected m] ex_run_rejected m
  show ?thesis by (simp add: ex_opts_def ex_services_def summary_of_def)
qed

end
